theory Spec2Isabelle
  imports Main "HOL-Library.Multiset"
begin

section \<open>Data model\<close>

text \<open>
  The structs of \<^verbatim>\<open>config.go\<close>. Go's \<^verbatim>\<open>int\<close> is modelled by \<^typ>\<open>int\<close>: the
  program only compares and copies these numbers, it never does arithmetic on them, so
  no wrap-around can occur; the one place where the width of \<^verbatim>\<open>int\<close> matters is
  \<^verbatim>\<open>strconv.Atoi\<close>, whose range check is written out below for the 64-bit
  platforms. Strings are byte lists.
\<close>

record Config =
  Seed :: string
  Title :: string
  Owner :: string
  Transcoders :: "string list"

record Transcode =
  Resolution :: int
  Framerate :: int

text \<open>
  \<^verbatim>\<open>sourceResolution\<close> and \<^verbatim>\<open>sourceFramerate\<close> are package-level variables that
  \<^verbatim>\<open>getTranscoders\<close> reads and never writes. They are declared in another file of
  the package, so the model takes them as a parameter.
\<close>

record Source =
  sourceResolution :: int
  sourceFramerate :: int

text \<open>
  The four lines \<^verbatim>\<open>getTranscoders\<close> prints with \<^verbatim>\<open>fmt.Println\<close>, in the order of
  the source: invalid value (printed for a bad resolution and for a bad framerate
  alike), source is smaller, framerate lowered, source resolution and framerate equal.
\<close>

datatype line =
    SkippingInvalid string
  | SkippingSourceSmaller string int
  | LoweringFramerate string int
  | SkippingEqual string

section \<open>The Go library functions the program calls\<close>

text \<open>
  \<^verbatim>\<open>strings.Split(s, sep)\<close> for a one-byte separator: the segments of \<open>s\<close> between
  the occurrences of the separator, always at least one segment.
\<close>

fun Split :: "string \<Rightarrow> char \<Rightarrow> string list" where
  "Split [] sep = [[]]"
| "Split (c # cs) sep =
     (if c = sep then [] # Split cs sep
      else (case Split cs sep of
              [] \<Rightarrow> [[c]]
            | seg # segs \<Rightarrow> (c # seg) # segs))"

text \<open>
  \<^verbatim>\<open>strconv.Atoi\<close>: an optional sign, then one or more ASCII digits, nothing else;
  the value must fit a 64-bit \<^verbatim>\<open>int\<close>. \<open>None\<close> stands for a non-nil error (syntax or
  range); the program looks at the value only when the error is nil.
\<close>

definition isDigit :: "char \<Rightarrow> bool" where
  "isDigit c = (48 \<le> (of_char c :: nat) \<and> (of_char c :: nat) \<le> 57)"

fun parseDigits :: "int \<Rightarrow> string \<Rightarrow> int option" where
  "parseDigits n [] = Some n"
| "parseDigits n (c # cs) =
     (if isDigit c then parseDigits (n * 10 + (of_char c - 48)) cs else None)"

definition maxInt :: int where
  "maxInt = 9223372036854775807"

definition minInt :: int where
  "minInt = - 9223372036854775808"

definition parseSigned :: "bool \<Rightarrow> string \<Rightarrow> int option" where
  "parseSigned neg ds =
     (if ds = [] then None
      else (case parseDigits 0 ds of
              None \<Rightarrow> None
            | Some n \<Rightarrow>
                (let v = (if neg then - n else n)
                 in if minInt \<le> v \<and> v \<le> maxInt then Some v else None)))"

definition Atoi :: "string \<Rightarrow> int option" where
  "Atoi s =
     (case s of
        [] \<Rightarrow> None
      | c # cs \<Rightarrow>
          if c = CHR ''-'' then parseSigned True cs
          else if c = CHR ''+'' then parseSigned False cs
          else parseSigned False s)"

text \<open>
  \<^verbatim>\<open>sort.SliceStable\<close>: a stable sort by the given comparison. Stability fixes the
  result, whatever the algorithm; the model is insertion sort, where an element stays
  in front of the later elements that are not less than it.
\<close>

fun insertStable :: "('a \<Rightarrow> 'a \<Rightarrow> bool) \<Rightarrow> 'a \<Rightarrow> 'a list \<Rightarrow> 'a list" where
  "insertStable lessFn x [] = [x]"
| "insertStable lessFn x (y # ys) =
     (if lessFn y x then y # insertStable lessFn x ys else x # y # ys)"

fun SliceStable :: "('a \<Rightarrow> 'a \<Rightarrow> bool) \<Rightarrow> 'a list \<Rightarrow> 'a list" where
  "SliceStable lessFn [] = []"
| "SliceStable lessFn (x # xs) = insertStable lessFn x (SliceStable lessFn xs)"

text \<open>
  The decimal rendering of a natural number without leading zeros, as
  \<^verbatim>\<open>strconv.Itoa\<close> prints it. The program does not call it; the statements about
  tokens of the form \<^verbatim>\<open><r>p<f>\<close> use it to build the token from the numbers.
\<close>

definition digitChar :: "nat \<Rightarrow> char" where
  "digitChar d = ''0123456789'' ! d"

fun decimal :: "nat \<Rightarrow> string" where
  "decimal n =
     (if n < 10 then [digitChar n]
      else decimal (n div 10) @ [digitChar (n mod 10)])"

declare decimal.simps [simp del]

section \<open>getTranscoders\<close>

text \<open>
  The two parses of the loop body: the first segment is always parsed as the
  resolution; the framerate is parsed only when the token has exactly two segments and
  the second one is not empty, and is 30 otherwise.
\<close>

definition resolutionOf :: "string list \<Rightarrow> int option" where
  "resolutionOf transcodeStr = Atoi (transcodeStr ! 0)"

definition framerateOf :: "string list \<Rightarrow> int option" where
  "framerateOf transcodeStr =
     (if length transcodeStr = 2 \<and> length (transcodeStr ! 1) > 0
      then Atoi (transcodeStr ! 1)
      else Some 30)"

text \<open>
  One iteration of the loop over \<^verbatim>\<open>config.Transcoders\<close>, with the checks in the
  order of the source: the lines it prints, and the \<^verbatim>\<open>Transcode\<close> it appends
  (\<open>None\<close> where the source says \<^verbatim>\<open>continue\<close>).
\<close>

definition getTranscoders_iter :: "Source \<Rightarrow> string \<Rightarrow> line list \<times> Transcode option" where
  "getTranscoders_iter src v =
     (let transcodeStr = Split v (CHR ''p'') in
      case resolutionOf transcodeStr of
        None \<Rightarrow> ([SkippingInvalid v], None)
      | Some resolution \<Rightarrow>
          if sourceResolution src \<le> resolution
          then ([SkippingSourceSmaller v (sourceResolution src)], None)
          else
            (case framerateOf transcodeStr of
               None \<Rightarrow> ([SkippingInvalid v], None)
             | Some framerate0 \<Rightarrow>
                 (let lowered = (framerate0 > sourceFramerate src);
                      framerate = (if lowered then sourceFramerate src else framerate0);
                      out = (if lowered then [LoweringFramerate v (sourceFramerate src)] else [])
                  in if sourceResolution src = resolution \<and> framerate = sourceFramerate src
                     then (out @ [SkippingEqual v], None)
                     else (out, Some \<lparr>Resolution = resolution, Framerate = framerate\<rparr>))))"

text \<open>The loop: the state is the slice built so far and the lines printed so far.\<close>

fun getTranscoders_loop ::
  "Source \<Rightarrow> string list \<Rightarrow> Transcode list \<times> line list \<Rightarrow> Transcode list \<times> line list" where
  "getTranscoders_loop src [] st = st"
| "getTranscoders_loop src (v # vs) (transcoders, out) =
     (case getTranscoders_iter src v of
        (msgs, None) \<Rightarrow> getTranscoders_loop src vs (transcoders, out @ msgs)
      | (msgs, Some t) \<Rightarrow> getTranscoders_loop src vs (transcoders @ [t], out @ msgs))"

section \<open>removeDuplicateTranscodes\<close>

text \<open>The comparison handed to \<^verbatim>\<open>sort.SliceStable\<close>.\<close>

definition transcode_less :: "Transcode \<Rightarrow> Transcode \<Rightarrow> bool" where
  "transcode_less a b =
     (if Resolution a \<noteq> Resolution b then Resolution a > Resolution b
      else Framerate a > Framerate b)"

text \<open>
  The scan over the sorted slice with the map \<^verbatim>\<open>seen\<close> from resolution to
  framerate; an entry that is kept is appended to \<^verbatim>\<open>unique\<close>, so the kept entries
  come out in scan order.
\<close>

fun removeDuplicate_scan :: "(int \<rightharpoonup> int) \<Rightarrow> Transcode list \<Rightarrow> Transcode list" where
  "removeDuplicate_scan seen [] = []"
| "removeDuplicate_scan seen (transcode # rest) =
     (case seen (Resolution transcode) of
        None \<Rightarrow>
          transcode # removeDuplicate_scan (seen(Resolution transcode \<mapsto> Framerate transcode)) rest
      | Some prevFramerate \<Rightarrow>
          if Framerate transcode > prevFramerate
          then transcode # removeDuplicate_scan (seen(Resolution transcode \<mapsto> Framerate transcode)) rest
          else removeDuplicate_scan seen rest)"

definition removeDuplicateTranscodes :: "Transcode list \<Rightarrow> Transcode list" where
  "removeDuplicateTranscodes transcodes =
     removeDuplicate_scan Map.empty (SliceStable transcode_less transcodes)"

text \<open>
  \<^verbatim>\<open>getTranscoders\<close> with its output: the returned slice and the printed lines.
  \<open>getTranscoders\<close> is the returned slice alone.
\<close>

definition getTranscoders_io :: "Source \<Rightarrow> Config \<Rightarrow> Transcode list \<times> line list" where
  "getTranscoders_io src config =
     (case getTranscoders_loop src (Transcoders config) ([], []) of
        (transcoders, out) \<Rightarrow> (removeDuplicateTranscodes transcoders, out))"

definition getTranscoders :: "Source \<Rightarrow> Config \<Rightarrow> Transcode list" where
  "getTranscoders src config = fst (getTranscoders_io src config)"

section \<open>NewConfig\<close>

text \<open>
  The file system as far as \<^verbatim>\<open>NewConfig\<close> touches it: the contents of the files
  that exist, by path, and the paths on which every operation fails with a permission
  error. \<^verbatim>\<open>os.Stat\<close>, \<^verbatim>\<open>os.Open\<close> with the read of the whole file, and
  \<^verbatim>\<open>os.WriteFile\<close> are the three operations.
\<close>

datatype os_error = ErrNotExist | ErrPermission

record FileSystem =
  files :: "string \<rightharpoonup> string"
  denied :: "string \<Rightarrow> bool"

definition Stat :: "string \<Rightarrow> FileSystem \<Rightarrow> os_error + unit" where
  "Stat path fs =
     (if denied fs path then Inl ErrPermission
      else (case files fs path of None \<Rightarrow> Inl ErrNotExist | Some _ \<Rightarrow> Inr ()))"

definition Open :: "string \<Rightarrow> FileSystem \<Rightarrow> os_error + string" where
  "Open path fs =
     (if denied fs path then Inl ErrPermission
      else (case files fs path of None \<Rightarrow> Inl ErrNotExist | Some data \<Rightarrow> Inr data))"

definition WriteFile :: "string \<Rightarrow> string \<Rightarrow> FileSystem \<Rightarrow> (os_error + unit) \<times> FileSystem" where
  "WriteFile path data fs =
     (if denied fs path then (Inl ErrPermission, fs)
      else (Inr (), fs\<lparr>files := (files fs)(path \<mapsto> data)\<rparr>))"

text \<open>
  What \<^verbatim>\<open>NewConfig\<close> takes from outside the file: the seed of the fresh wallet in
  hexadecimal, the JSON encoder and decoder, and the text of the constant
  \<^verbatim>\<open>mediaMTXDefaults\<close> (some six hundred lines of YAML in the source, of which only
  the identity matters here).
\<close>

record External =
  newSeed :: string
  MarshalIndent :: "Config \<Rightarrow> string option"
  Decode :: "string \<Rightarrow> Config option"
  mediaMTXDefaults :: string

datatype error =
    StatError os_error
  | OpenError os_error
  | MarshalError
  | CreateError os_error
  | DecodeError

definition generateMediaMTXConfig :: "External \<Rightarrow> FileSystem \<Rightarrow> FileSystem" where
  "generateMediaMTXConfig ext fs =
     (case Stat ''mediamtx.yml'' fs of
        Inl ErrNotExist \<Rightarrow> snd (WriteFile ''mediamtx.yml'' (mediaMTXDefaults ext) fs)
      | _ \<Rightarrow> fs)"

definition NewConfig :: "External \<Rightarrow> string \<Rightarrow> FileSystem \<Rightarrow> (error + Config) \<times> FileSystem" where
  "NewConfig ext configFile fs0 =
     (let fs = generateMediaMTXConfig ext fs0 in
      case Stat configFile fs of
        Inl ErrNotExist \<Rightarrow>
          (let defaultConfig =
                 \<lparr>Seed = newSeed ext, Title = ''Unnamed Stream'', Owner = [], Transcoders = []\<rparr>
           in case MarshalIndent ext defaultConfig of
                None \<Rightarrow> (Inl MarshalError, fs)
              | Some data \<Rightarrow>
                  (case WriteFile configFile data fs of
                     (Inl e, fs') \<Rightarrow> (Inl (CreateError e), fs')
                   | (Inr _, fs') \<Rightarrow> (Inr defaultConfig, fs')))
      | Inl e \<Rightarrow> (Inl (StatError e), fs)
      | Inr _ \<Rightarrow>
          (case Open configFile fs of
             Inl e \<Rightarrow> (Inl (OpenError e), fs)
           | Inr data \<Rightarrow>
               (case Decode ext data of
                  None \<Rightarrow> (Inl DecodeError, fs)
                | Some cfg \<Rightarrow>
                    (Inr (if Title cfg = [] then cfg\<lparr>Title := ''Unnamed Stream''\<rparr> else cfg), fs))))"

section \<open>Facts about the library functions\<close>

text \<open>
  \<^verbatim>\<open>strings.Split\<close> never returns an empty slice, so \<^verbatim>\<open>transcodeStr[0]\<close> is
  always in range; a string without the separator is its own single segment, and the
  text before the first separator is the first segment.
\<close>

lemma Split_nonempty: "Split s c \<noteq> []"
  by (induction s) (auto split: list.splits)

lemma Split_no_sep: "c \<notin> set xs \<Longrightarrow> Split xs c = [xs]"
  by (induction xs) auto

lemma Split_at_sep: "c \<notin> set xs \<Longrightarrow> Split (xs @ c # ys) c = xs # Split ys c"
  by (induction xs) auto

text \<open>
  The stable sort keeps the elements and, for the comparison of
  \<^verbatim>\<open>removeDuplicateTranscodes\<close>, leaves no later element less than an earlier one.
\<close>

lemma set_insertStable: "set (insertStable lessFn x xs) = insert x (set xs)"
  by (induction xs) auto

lemma set_SliceStable: "set (SliceStable lessFn xs) = set xs"
  by (induction xs) (auto simp: set_insertStable)

lemma sorted_insertStable:
  "sorted_wrt (\<lambda>a b. \<not> transcode_less b a) xs \<Longrightarrow>
   sorted_wrt (\<lambda>a b. \<not> transcode_less b a) (insertStable transcode_less x xs)"
proof (induction xs)
  case Nil
  show ?case by simp
next
  case (Cons y ys)
  show ?case
  proof (cases "transcode_less y x")
    case True
    then have "\<not> transcode_less x y"
      by (auto simp: transcode_less_def split: if_splits)
    with True Cons show ?thesis
      by (auto simp: set_insertStable)
  next
    case False
    have "\<not> transcode_less z x" if "z \<in> set ys" for z
    proof -
      from Cons.prems that have "\<not> transcode_less z y" by simp
      with False show ?thesis
        by (auto simp: transcode_less_def split: if_splits)
    qed
    with False Cons.prems show ?thesis by auto
  qed
qed

lemma sorted_SliceStable:
  "sorted_wrt (\<lambda>a b. \<not> transcode_less b a) (SliceStable transcode_less xs)"
  by (induction xs) (simp_all add: sorted_insertStable)

text \<open>
  \<^verbatim>\<open>strconv.Atoi\<close> reads back the decimal rendering of every number that fits
  an \<^verbatim>\<open>int\<close>.
\<close>

lemma digit_cases:
  "d < 10 \<Longrightarrow> d = 0 \<or> d = 1 \<or> d = 2 \<or> d = 3 \<or> d = 4 \<or> d = 5 \<or> d = 6 \<or> d = 7 \<or> d = 8 \<or> d = (9::nat)"
  by arith

lemma digitChar_props:
  assumes "d < 10"
  shows "isDigit (digitChar d)" "(of_char (digitChar d) :: int) - 48 = int d"
    "digitChar d \<noteq> CHR ''p''" "digitChar d \<noteq> CHR ''-''" "digitChar d \<noteq> CHR ''+''"
  using digit_cases[OF assms] by (auto simp: digitChar_def isDigit_def)

lemma decimal_chars: "c \<in> set (decimal n) \<Longrightarrow> \<exists>d < 10. c = digitChar d"
proof (induction n rule: decimal.induct)
  case (1 n)
  show ?case
  proof (cases "n < 10")
    case True
    with "1.prems" show ?thesis by (auto simp: decimal.simps[of n])
  next
    case False
    with "1.prems" have "c \<in> set (decimal (n div 10)) \<or> c = digitChar (n mod 10)"
      by (auto simp: decimal.simps[of n])
    then show ?thesis
    proof
      assume "c \<in> set (decimal (n div 10))"
      with False "1.IH" show ?thesis by blast
    next
      assume "c = digitChar (n mod 10)"
      moreover have "n mod 10 < 10" by simp
      ultimately show ?thesis by blast
    qed
  qed
qed

lemma decimal_nonempty: "decimal n \<noteq> []"
  by (subst decimal.simps) simp

lemma decimal_no_p: "CHR ''p'' \<notin> set (decimal n)"
proof
  assume "CHR ''p'' \<in> set (decimal n)"
  then obtain d where "d < 10" and "CHR ''p'' = digitChar d"
    using decimal_chars by blast
  then show False using digitChar_props(3)[of d] by simp
qed

lemma parseDigits_snoc:
  "parseDigits a (xs @ [c]) =
     (case parseDigits a xs of
        None \<Rightarrow> None
      | Some m \<Rightarrow> if isDigit c then Some (m * 10 + (of_char c - 48)) else None)"
  by (induction xs arbitrary: a) auto

lemma parseDigits_decimal: "parseDigits 0 (decimal n) = Some (int n)"
proof (induction n rule: decimal.induct)
  case (1 n)
  show ?case
  proof (cases "n < 10")
    case True
    then show ?thesis
      by (simp add: decimal.simps[of n] digitChar_props)
  next
    case False
    have "n mod 10 < 10" by simp
    then have d: "isDigit (digitChar (n mod 10))"
      "(of_char (digitChar (n mod 10)) :: int) - 48 = int (n mod 10)"
      by (rule digitChar_props)+
    have "n div 10 * 10 + n mod 10 = n" by simp
    then have "int (n div 10) * 10 + int (n mod 10) = int n"
      by (metis of_nat_add of_nat_mult of_nat_numeral)
    with False "1.IH" d show ?thesis
      by (simp add: decimal.simps[of n] parseDigits_snoc)
  qed
qed

lemma Atoi_decimal:
  assumes "int n \<le> maxInt"
  shows "Atoi (decimal n) = Some (int n)"
proof -
  obtain c cs where dec: "decimal n = c # cs"
    by (cases "decimal n") (simp_all add: decimal_nonempty)
  then have "c \<in> set (decimal n)" by simp
  then obtain d where d: "d < 10" and c: "c = digitChar d"
    using decimal_chars by blast
  have "c \<noteq> CHR ''-''" and "c \<noteq> CHR ''+''"
    unfolding c by (rule digitChar_props(4)[OF d], rule digitChar_props(5)[OF d])
  then have "Atoi (c # cs) = parseSigned False (c # cs)"
    by (simp add: Atoi_def)
  then have "Atoi (decimal n) = parseSigned False (decimal n)"
    by (simp only: dec)
  also have "\<dots> = Some (int n)"
  proof -
    have "minInt \<le> int n" by (simp add: minInt_def)
    with assms show ?thesis
      by (simp add: parseSigned_def decimal_nonempty parseDigits_decimal)
  qed
  finally show ?thesis .
qed

section \<open>Facts about the loop of getTranscoders\<close>

text \<open>
  The loop appends, in order, what each iteration yields: the slice handed to
  \<^verbatim>\<open>removeDuplicateTranscodes\<close> holds the results of the iterations that did not
  \<^verbatim>\<open>continue\<close>.
\<close>

lemma in_set_map_filter:
  "y \<in> set (List.map_filter f xs) \<longleftrightarrow> (\<exists>x \<in> set xs. f x = Some y)"
  by (induction xs) (auto split: option.splits)

lemma getTranscoders_loop_eq:
  "getTranscoders_loop src vs (ts, out) =
     (ts @ List.map_filter (\<lambda>v. snd (getTranscoders_iter src v)) vs,
      out @ concat (map (\<lambda>v. fst (getTranscoders_iter src v)) vs))"
proof (induction vs arbitrary: ts out)
  case Nil
  show ?case by (simp add: List.map_filter_simps)
next
  case (Cons v vs)
  obtain msgs r where it: "getTranscoders_iter src v = (msgs, r)"
    by (cases "getTranscoders_iter src v")
  show ?case
    by (cases r) (simp_all add: it Cons.IH List.map_filter_simps)
qed

lemma getTranscoders_eq:
  "getTranscoders src cfg =
     removeDuplicateTranscodes
       (List.map_filter (\<lambda>v. snd (getTranscoders_iter src v)) (Transcoders cfg))"
  by (simp add: getTranscoders_def getTranscoders_io_def getTranscoders_loop_eq)

text \<open>
  What an iteration that appends has checked, and when an iteration appends the
  parsed values unchanged.
\<close>

lemma getTranscoders_iter_Some:
  assumes "snd (getTranscoders_iter src v) = Some t"
  shows "\<exists>f. resolutionOf (Split v (CHR ''p'')) = Some (Resolution t) \<and>
             framerateOf (Split v (CHR ''p'')) = Some f \<and>
             Resolution t < sourceResolution src \<and>
             Framerate t = min f (sourceFramerate src)"
  using assms
  by (auto simp: getTranscoders_iter_def Let_def split: option.splits if_splits)

lemma getTranscoders_iter_accepts:
  assumes "resolutionOf (Split v (CHR ''p'')) = Some r" and "r < sourceResolution src"
    and "framerateOf (Split v (CHR ''p'')) = Some f" and "f \<le> sourceFramerate src"
  shows "snd (getTranscoders_iter src v) = Some \<lparr>Resolution = r, Framerate = f\<rparr>"
  using assms by (simp add: getTranscoders_iter_def)

text \<open>
  The last check of the loop body, source resolution and framerate both equal, is
  reached only by a resolution strictly below the source's: its line is never printed.
\<close>

lemma equal_check_is_unreachable:
  "SkippingEqual w \<notin> set (fst (getTranscoders_iter src v))"
  by (auto simp: getTranscoders_iter_def Let_def split: option.splits)

section \<open>Facts about removeDuplicateTranscodes\<close>

text \<open>
  The scan, on a slice sorted by the comparison and a map \<^verbatim>\<open>seen\<close> whose entries
  dominate the slice: the kept entries have strictly descending resolutions, none of
  them was in \<^verbatim>\<open>seen\<close>, each has the greatest framerate of its resolution, and
  every resolution not in \<^verbatim>\<open>seen\<close> keeps an entry.
\<close>

lemma set_removeDuplicate_scan: "set (removeDuplicate_scan seen xs) \<subseteq> set xs"
  by (induction xs arbitrary: seen) (auto split: option.splits if_splits)

lemma scan_sorted:
  assumes "sorted_wrt (\<lambda>a b. \<not> transcode_less b a) xs"
    and "\<forall>t \<in> set xs. \<forall>r p. seen r = Some p \<longrightarrow>
           Resolution t < r \<or> (Resolution t = r \<and> Framerate t \<le> p)"
  shows "sorted_wrt (\<lambda>a b. Resolution a > Resolution b) (removeDuplicate_scan seen xs) \<and>
         (\<forall>u \<in> set (removeDuplicate_scan seen xs). seen (Resolution u) = None) \<and>
         (\<forall>u \<in> set (removeDuplicate_scan seen xs). \<forall>w \<in> set xs.
            Resolution w = Resolution u \<longrightarrow> Framerate w \<le> Framerate u) \<and>
         (\<forall>w \<in> set xs. seen (Resolution w) = None \<longrightarrow>
            (\<exists>u \<in> set (removeDuplicate_scan seen xs). Resolution u = Resolution w))"
  using assms
proof (induction xs arbitrary: seen)
  case Nil
  show ?case by simp
next
  case (Cons t rest)
  have ge: "\<And>u. u \<in> set rest \<Longrightarrow>
      Resolution u < Resolution t \<or> (Resolution u = Resolution t \<and> Framerate u \<le> Framerate t)"
    using Cons.prems(1) by (auto simp: transcode_less_def split: if_splits)
  have sorted_rest: "sorted_wrt (\<lambda>a b. \<not> transcode_less b a) rest"
    using Cons.prems(1) by simp
  show ?case
  proof (cases "seen (Resolution t)")
    case None
    let ?seen = "seen(Resolution t \<mapsto> Framerate t)"
    have inv: "\<forall>u \<in> set rest. \<forall>r p. ?seen r = Some p \<longrightarrow>
           Resolution u < r \<or> (Resolution u = r \<and> Framerate u \<le> p)"
      using Cons.prems(2) ge by auto
    note IH = Cons.IH[OF sorted_rest inv]
    have kept: "removeDuplicate_scan seen (t # rest) = t # removeDuplicate_scan ?seen rest"
      using None by simp
    have below: "Resolution u < Resolution t" if "u \<in> set (removeDuplicate_scan ?seen rest)" for u
    proof -
      from that IH have "?seen (Resolution u) = None" by blast
      then have "Resolution u \<noteq> Resolution t" by (auto split: if_splits)
      moreover from that have "u \<in> set rest"
        using set_removeDuplicate_scan by blast
      ultimately show ?thesis using ge by force
    qed
    from IH have IH1: "sorted_wrt (\<lambda>a b. Resolution a > Resolution b) (removeDuplicate_scan ?seen rest)"
      by blast
    from IH have IH2: "\<And>u. u \<in> set (removeDuplicate_scan ?seen rest) \<Longrightarrow> ?seen (Resolution u) = None"
      by blast
    from IH have IH3: "\<And>u w. u \<in> set (removeDuplicate_scan ?seen rest) \<Longrightarrow> w \<in> set rest \<Longrightarrow>
            Resolution w = Resolution u \<Longrightarrow> Framerate w \<le> Framerate u"
      by blast
    from IH have IH4: "\<And>w. w \<in> set rest \<Longrightarrow> ?seen (Resolution w) = None \<Longrightarrow>
            \<exists>u \<in> set (removeDuplicate_scan ?seen rest). Resolution u = Resolution w"
      by blast
    have c1: "sorted_wrt (\<lambda>a b. Resolution a > Resolution b) (removeDuplicate_scan seen (t # rest))"
      unfolding kept by (simp add: IH1 below)
    have IH2': "seen (Resolution u) = None"
      if "u \<in> set (removeDuplicate_scan ?seen rest)" for u
      using IH2[OF that] by (simp split: if_splits)
    have c2: "\<forall>u \<in> set (removeDuplicate_scan seen (t # rest)). seen (Resolution u) = None"
      unfolding kept using IH2' None by auto
    have c3: "\<forall>u \<in> set (removeDuplicate_scan seen (t # rest)). \<forall>w \<in> set (t # rest).
            Resolution w = Resolution u \<longrightarrow> Framerate w \<le> Framerate u"
    proof (intro ballI impI)
      fix u w
      assume u: "u \<in> set (removeDuplicate_scan seen (t # rest))" and w: "w \<in> set (t # rest)"
        and eq: "Resolution w = Resolution u"
      show "Framerate w \<le> Framerate u"
      proof (cases "u = t")
        case True
        with w eq ge show ?thesis by force
      next
        case False
        with u have u': "u \<in> set (removeDuplicate_scan ?seen rest)" unfolding kept by simp
        with below eq have "w \<noteq> t" by force
        with w have "w \<in> set rest" by simp
        then show ?thesis using IH3[OF u' _ eq] by simp
      qed
    qed
    have c4: "\<forall>w \<in> set (t # rest). seen (Resolution w) = None \<longrightarrow>
            (\<exists>u \<in> set (removeDuplicate_scan seen (t # rest)). Resolution u = Resolution w)"
    proof (intro ballI impI)
      fix w assume w: "w \<in> set (t # rest)" and "seen (Resolution w) = None"
      show "\<exists>u \<in> set (removeDuplicate_scan seen (t # rest)). Resolution u = Resolution w"
      proof (cases "Resolution w = Resolution t")
        case True
        then show ?thesis unfolding kept by auto
      next
        case False
        with w have "w \<in> set rest" by auto
        moreover from False \<open>seen (Resolution w) = None\<close> have "?seen (Resolution w) = None" by simp
        ultimately obtain u where "u \<in> set (removeDuplicate_scan ?seen rest)"
          and "Resolution u = Resolution w"
          using IH4 by blast
        then show ?thesis unfolding kept by auto
      qed
    qed
    from c1 c2 c3 c4 show ?thesis by blast
  next
    case (Some p)
    from Cons.prems(2) Some have le: "Framerate t \<le> p" by fastforce
    have inv: "\<forall>u \<in> set rest. \<forall>r p. seen r = Some p \<longrightarrow>
           Resolution u < r \<or> (Resolution u = r \<and> Framerate u \<le> p)"
      using Cons.prems(2) by simp
    note IH = Cons.IH[OF sorted_rest inv]
    have dropped: "removeDuplicate_scan seen (t # rest) = removeDuplicate_scan seen rest"
      using Some le by simp
    have c3: "\<forall>u \<in> set (removeDuplicate_scan seen (t # rest)). \<forall>w \<in> set (t # rest).
            Resolution w = Resolution u \<longrightarrow> Framerate w \<le> Framerate u"
      unfolding dropped using IH Some by fastforce
    have c4: "\<forall>w \<in> set (t # rest). seen (Resolution w) = None \<longrightarrow>
            (\<exists>u \<in> set (removeDuplicate_scan seen (t # rest)). Resolution u = Resolution w)"
      unfolding dropped using IH Some by auto
    from IH c3 c4 show ?thesis unfolding dropped by blast
  qed
qed

lemma removeDuplicateTranscodes_facts:
  "sorted_wrt (\<lambda>a b. Resolution a > Resolution b) (removeDuplicateTranscodes xs)"
  "set (removeDuplicateTranscodes xs) \<subseteq> set xs"
  "u \<in> set (removeDuplicateTranscodes xs) \<Longrightarrow> w \<in> set xs \<Longrightarrow>
     Resolution w = Resolution u \<Longrightarrow> Framerate w \<le> Framerate u"
  "w \<in> set xs \<Longrightarrow> \<exists>u \<in> set (removeDuplicateTranscodes xs). Resolution u = Resolution w"
proof -
  let ?ys = "SliceStable transcode_less xs"
  have "sorted_wrt (\<lambda>a b. \<not> transcode_less b a) ?ys"
    by (rule sorted_SliceStable)
  moreover have "\<forall>t \<in> set ?ys. \<forall>r p. Map.empty r = Some p \<longrightarrow>
           Resolution t < r \<or> (Resolution t = r \<and> Framerate t \<le> p)"
    by simp
  ultimately have all:
     "sorted_wrt (\<lambda>a b. Resolution a > Resolution b) (removeDuplicate_scan Map.empty ?ys) \<and>
      (\<forall>u \<in> set (removeDuplicate_scan Map.empty ?ys). Map.empty (Resolution u) = (None :: int option)) \<and>
      (\<forall>u \<in> set (removeDuplicate_scan Map.empty ?ys). \<forall>w \<in> set ?ys.
            Resolution w = Resolution u \<longrightarrow> Framerate w \<le> Framerate u) \<and>
      (\<forall>w \<in> set ?ys. Map.empty (Resolution w) = (None :: int option) \<longrightarrow>
            (\<exists>u \<in> set (removeDuplicate_scan Map.empty ?ys). Resolution u = Resolution w))"
    by (rule scan_sorted)
  show "sorted_wrt (\<lambda>a b. Resolution a > Resolution b) (removeDuplicateTranscodes xs)"
    using all by (simp add: removeDuplicateTranscodes_def)
  show "set (removeDuplicateTranscodes xs) \<subseteq> set xs"
    using set_removeDuplicate_scan[of Map.empty ?ys]
    by (simp add: removeDuplicateTranscodes_def set_SliceStable)
  show "u \<in> set (removeDuplicateTranscodes xs) \<Longrightarrow> w \<in> set xs \<Longrightarrow>
     Resolution w = Resolution u \<Longrightarrow> Framerate w \<le> Framerate u"
    using all by (simp add: removeDuplicateTranscodes_def set_SliceStable)
  show "w \<in> set xs \<Longrightarrow> \<exists>u \<in> set (removeDuplicateTranscodes xs). Resolution u = Resolution w"
    using all by (simp add: removeDuplicateTranscodes_def set_SliceStable)
qed

text \<open>
  A slice with strictly descending resolutions is fixed by its set of entries, and
  the entries \<^verbatim>\<open>removeDuplicateTranscodes\<close> returns are fixed by the set of entries
  it is given.
\<close>

lemma descending_resolutions_distinct:
  "sorted_wrt (\<lambda>a b. Resolution a > Resolution b) xs \<Longrightarrow> distinct (map Resolution xs)"
  by (induction xs) auto

lemma descending_resolutions_unique:
  "sorted_wrt (\<lambda>a b. Resolution a > Resolution b) xs \<Longrightarrow>
   sorted_wrt (\<lambda>a b. Resolution a > Resolution b) ys \<Longrightarrow>
   set xs = set ys \<Longrightarrow> xs = ys"
proof (induction xs arbitrary: ys)
  case Nil
  then show ?case by simp
next
  case (Cons a xs)
  then obtain b ys' where ys: "ys = b # ys'"
    by (cases ys) auto
  have "a \<in> set (b # ys')" using Cons.prems(3) ys by auto
  then have ab: "a = b \<or> Resolution b > Resolution a"
    using Cons.prems(2) ys by auto
  have "b \<in> set (a # xs)" using Cons.prems(3) ys by auto
  then have ba: "b = a \<or> Resolution a > Resolution b"
    using Cons.prems(1) by auto
  from ab ba have eq: "a = b" by auto
  have "a \<notin> set xs" using Cons.prems(1) by auto
  moreover have "b \<notin> set ys'" using Cons.prems(2) ys by auto
  ultimately have "set xs = set ys'"
    using Cons.prems(3) ys eq by auto
  moreover have "sorted_wrt (\<lambda>a b. Resolution a > Resolution b) xs"
    using Cons.prems(1) by simp
  moreover have "sorted_wrt (\<lambda>a b. Resolution a > Resolution b) ys'"
    using Cons.prems(2) ys by simp
  ultimately have "xs = ys'" using Cons.IH by blast
  with eq ys show ?case by simp
qed

lemma set_removeDuplicateTranscodes:
  "set (removeDuplicateTranscodes xs) =
     {u \<in> set xs. \<forall>w \<in> set xs. Resolution w = Resolution u \<longrightarrow> Framerate w \<le> Framerate u}"
proof (intro equalityI subsetI)
  fix u assume "u \<in> set (removeDuplicateTranscodes xs)"
  then show "u \<in> {u \<in> set xs. \<forall>w \<in> set xs. Resolution w = Resolution u \<longrightarrow> Framerate w \<le> Framerate u}"
    using removeDuplicateTranscodes_facts(2) removeDuplicateTranscodes_facts(3) by blast
next
  fix t assume "t \<in> {u \<in> set xs. \<forall>w \<in> set xs. Resolution w = Resolution u \<longrightarrow> Framerate w \<le> Framerate u}"
  then have t: "t \<in> set xs"
    and tmax: "\<And>w. w \<in> set xs \<Longrightarrow> Resolution w = Resolution t \<Longrightarrow> Framerate w \<le> Framerate t"
    by auto
  from removeDuplicateTranscodes_facts(4)[OF t] obtain u
    where u: "u \<in> set (removeDuplicateTranscodes xs)" and res: "Resolution u = Resolution t"
    by blast
  from u have "u \<in> set xs" using removeDuplicateTranscodes_facts(2) by blast
  then have "Framerate u \<le> Framerate t" using tmax res by simp
  moreover have "Framerate t \<le> Framerate u"
    using removeDuplicateTranscodes_facts(3)[OF u t] res by simp
  ultimately have "u = t" using res by simp
  with u show "t \<in> set (removeDuplicateTranscodes xs)" by simp
qed

lemma removeDuplicateTranscodes_cong:
  assumes "set ys = set xs"
  shows "removeDuplicateTranscodes ys = removeDuplicateTranscodes xs"
  by (rule descending_resolutions_unique)
     (simp_all add: removeDuplicateTranscodes_facts(1) set_removeDuplicateTranscodes assms)

text \<open>
  Every entry \<^verbatim>\<open>getTranscoders\<close> returns was appended by the iteration of some
  token, and a token whose iteration appends nothing can be removed from the list.
\<close>

lemma getTranscoders_member:
  assumes "t \<in> set (getTranscoders src cfg)"
  shows "\<exists>v \<in> set (Transcoders cfg). snd (getTranscoders_iter src v) = Some t"
proof -
  from assms
  have "t \<in> set (List.map_filter (\<lambda>v. snd (getTranscoders_iter src v)) (Transcoders cfg))"
    unfolding getTranscoders_eq using removeDuplicateTranscodes_facts(2) by blast
  then show ?thesis by (simp add: in_set_map_filter)
qed

lemma getTranscoders_drop_skipped:
  assumes "snd (getTranscoders_iter src v) = None"
  shows "getTranscoders src (cfg\<lparr>Transcoders := xs @ v # ys\<rparr>) =
         getTranscoders src (cfg\<lparr>Transcoders := xs @ ys\<rparr>)"
proof -
  have "List.map_filter (\<lambda>v. snd (getTranscoders_iter src v)) (xs @ v # ys) =
        List.map_filter (\<lambda>v. snd (getTranscoders_iter src v)) (xs @ ys)"
    using assms by (induction xs) (simp_all split: option.splits)
  then show ?thesis by (simp add: getTranscoders_eq)
qed

text \<open>
  \<^verbatim>\<open>generateMediaMTXConfig\<close> writes \<^verbatim>\<open>mediamtx.yml\<close> only when it does not
  exist: the files that exist keep their contents.
\<close>

lemma generateMediaMTXConfig_keeps:
  assumes "files fs path = Some data"
  shows "files (generateMediaMTXConfig ext fs) path = Some data"
    and "denied (generateMediaMTXConfig ext fs) = denied fs"
  using assms
  by (auto simp: generateMediaMTXConfig_def Stat_def WriteFile_def
           split: sum.splits os_error.splits option.splits if_splits)

section \<open>Equal resolution, lower framerate\<close>

text \<open>
  C1 says that a token whose resolution equals the source resolution and whose
  framerate, once lowered to the source's, is strictly below the source framerate is
  accepted and appears in the result. \<^verbatim>\<open>getTranscoders\<close> does not accept it: the
  first check of the loop body skips every resolution that is not strictly below the
  source's, so for the token 1920p15 and a source of 1920 at 30 nothing is returned and
  the line printed is the one for a smaller source.
\<close>

theorem equal_resolution_lower_framerate_is_skipped:
  "getTranscoders_io \<lparr>sourceResolution = 1920, sourceFramerate = 30\<rparr>
     \<lparr>Seed = seed, Title = title, Owner = owner, Transcoders = [''1920p15'']\<rparr>
   = ([], [SkippingSourceSmaller ''1920p15'' 1920])"
  by (simp add: getTranscoders_io_def getTranscoders_iter_def
      resolutionOf_def framerateOf_def Atoi_def parseSigned_def isDigit_def
      maxInt_def minInt_def removeDuplicateTranscodes_def)

section \<open>The end-to-end scenario\<close>

text \<open>
  C2: for the tokens 1080p30, 720p, 480p60, 1080p15 and a source of 1920 at 30,
  \<^verbatim>\<open>getTranscoders\<close> returns exactly 1080 at 30, 720 at 30 and 480 at 30, in this
  order, whatever the other fields of the configuration are.
\<close>

theorem scenario_resolves_to_three_profiles:
  "getTranscoders \<lparr>sourceResolution = 1920, sourceFramerate = 30\<rparr>
     \<lparr>Seed = seed, Title = title, Owner = owner,
      Transcoders = [''1080p30'', ''720p'', ''480p60'', ''1080p15'']\<rparr>
   = [\<lparr>Resolution = 1080, Framerate = 30\<rparr>,
      \<lparr>Resolution = 720, Framerate = 30\<rparr>,
      \<lparr>Resolution = 480, Framerate = 30\<rparr>]"
  by (simp add: getTranscoders_def getTranscoders_io_def getTranscoders_iter_def
      resolutionOf_def framerateOf_def Atoi_def parseSigned_def isDigit_def
      maxInt_def minInt_def removeDuplicateTranscodes_def transcode_less_def)

section \<open>Tokens with a framerate that does not parse\<close>

text \<open>
  C3, as the code has it: a token that splits at \<^verbatim>\<open>p\<close> into exactly two segments,
  the second one not empty and not accepted by \<^verbatim>\<open>strconv.Atoi\<close>, yields no
  framerate and no \<^verbatim>\<open>Transcode\<close>, for every source: the result of
  \<^verbatim>\<open>getTranscoders\<close> is the result without this token, and when the resolution
  parses and is below the source's the line printed is the one for an invalid value.
\<close>

theorem unparsable_framerate_token_is_skipped:
  assumes "Split v (CHR ''p'') = [a, b]" and "b \<noteq> []" and "Atoi b = None"
  shows "framerateOf (Split v (CHR ''p'')) = None \<and>
         snd (getTranscoders_iter src v) = None \<and>
         getTranscoders src (cfg\<lparr>Transcoders := xs @ v # ys\<rparr>) =
           getTranscoders src (cfg\<lparr>Transcoders := xs @ ys\<rparr>) \<and>
         (\<forall>r. Atoi a = Some r \<and> r < sourceResolution src \<longrightarrow>
            getTranscoders_iter src v = ([SkippingInvalid v], None))"
proof -
  have fr: "framerateOf (Split v (CHR ''p'')) = None"
    using assms by (simp add: framerateOf_def)
  have res: "resolutionOf (Split v (CHR ''p'')) = Atoi a"
    using assms(1) by (simp add: resolutionOf_def)
  have none: "snd (getTranscoders_iter src v) = None"
    by (simp add: getTranscoders_iter_def Let_def fr split: option.splits)
  have msg: "getTranscoders_iter src v = ([SkippingInvalid v], None)"
    if "Atoi a = Some r \<and> r < sourceResolution src" for r
    using that by (simp add: getTranscoders_iter_def Let_def fr res)
  from fr none msg getTranscoders_drop_skipped[OF none] show ?thesis by blast
qed

text \<open>
  The theorem at the token 720pfast, between 1080p and 480p, for a source of 1920
  at 30.
\<close>

theorem unparsable_framerate_token_is_skipped_witness:
  "Split ''720pfast'' (CHR ''p'') = [''720'', ''fast''] \<and> ''fast'' \<noteq> [] \<and> Atoi ''fast'' = None \<and>
   framerateOf (Split ''720pfast'' (CHR ''p'')) = None \<and>
   getTranscoders_iter \<lparr>sourceResolution = 1920, sourceFramerate = 30\<rparr> ''720pfast''
     = ([SkippingInvalid ''720pfast''], None) \<and>
   getTranscoders \<lparr>sourceResolution = 1920, sourceFramerate = 30\<rparr>
     \<lparr>Seed = [], Title = [], Owner = [], Transcoders = [''1080p'', ''720pfast'', ''480p'']\<rparr>
   = getTranscoders \<lparr>sourceResolution = 1920, sourceFramerate = 30\<rparr>
     \<lparr>Seed = [], Title = [], Owner = [], Transcoders = [''1080p'', ''480p'']\<rparr>"
proof -
  have h: "Split ''720pfast'' (CHR ''p'') = [''720'', ''fast'']" "''fast'' \<noteq> []"
    "Atoi ''fast'' = None"
    by (simp_all add: Atoi_def parseSigned_def isDigit_def)
  have a: "Atoi ''720'' = Some 720 \<and>
      720 < sourceResolution \<lparr>sourceResolution = 1920, sourceFramerate = 30\<rparr>"
    by (simp add: Atoi_def parseSigned_def isDigit_def maxInt_def minInt_def)
  note inst = unparsable_framerate_token_is_skipped[OF h,
      where src = "\<lparr>sourceResolution = 1920, sourceFramerate = 30\<rparr>"
        and cfg = "\<lparr>Seed = [], Title = [], Owner = [], Transcoders = []\<rparr>"
        and xs = "[''1080p'']" and ys = "[''480p'']"]
  from inst a
  have "getTranscoders_iter \<lparr>sourceResolution = 1920, sourceFramerate = 30\<rparr> ''720pfast''
     = ([SkippingInvalid ''720pfast''], None)"
    by blast
  with inst h show ?thesis by simp
qed

text \<open>
  C3 as stated asks this of every second segment that is not a positive integer. It
  fails at three tokens, for a source of 1920 at 30: 720p0 yields 720 at 0 and 720p-5
  yields 720 at -5, since \<^verbatim>\<open>strconv.Atoi\<close> accepts zero and negative numbers;
  and 720pxp, which splits into three segments, yields 720 at 30.
\<close>

theorem nonpositive_or_extra_segment_framerate_is_accepted:
  "Split ''720p0'' (CHR ''p'') = [''720'', ''0''] \<and> Atoi ''0'' = Some 0 \<and>
   getTranscoders \<lparr>sourceResolution = 1920, sourceFramerate = 30\<rparr>
     \<lparr>Seed = [], Title = [], Owner = [], Transcoders = [''720p0'']\<rparr>
     = [\<lparr>Resolution = 720, Framerate = 0\<rparr>] \<and>
   Split ''720p-5'' (CHR ''p'') = [''720'', ''-5''] \<and> Atoi ''-5'' = Some (- 5) \<and>
   getTranscoders \<lparr>sourceResolution = 1920, sourceFramerate = 30\<rparr>
     \<lparr>Seed = [], Title = [], Owner = [], Transcoders = [''720p-5'']\<rparr>
     = [\<lparr>Resolution = 720, Framerate = - 5\<rparr>] \<and>
   Split ''720pxp'' (CHR ''p'') = [''720'', ''x'', []] \<and> Atoi ''x'' = None \<and>
   getTranscoders \<lparr>sourceResolution = 1920, sourceFramerate = 30\<rparr>
     \<lparr>Seed = [], Title = [], Owner = [], Transcoders = [''720pxp'']\<rparr>
     = [\<lparr>Resolution = 720, Framerate = 30\<rparr>]"
  by (simp add: getTranscoders_def getTranscoders_io_def
      getTranscoders_iter_def resolutionOf_def framerateOf_def Atoi_def parseSigned_def
      isDigit_def maxInt_def minInt_def removeDuplicateTranscodes_def)

section \<open>Positive resolutions and framerates\<close>

text \<open>
  C4, as the code has it: for a source with positive resolution and framerate and a
  token list in which every resolution and every framerate that parses is positive,
  every entry \<^verbatim>\<open>getTranscoders\<close> returns has a positive resolution and a positive
  framerate.
\<close>

theorem positive_segments_give_positive_profiles:
  assumes "0 < sourceResolution src" and "0 < sourceFramerate src"
    and "\<forall>v \<in> set (Transcoders cfg).
           (\<forall>r. resolutionOf (Split v (CHR ''p'')) = Some r \<longrightarrow> 0 < r) \<and>
           (\<forall>f. framerateOf (Split v (CHR ''p'')) = Some f \<longrightarrow> 0 < f)"
  shows "\<forall>t \<in> set (getTranscoders src cfg). 0 < Resolution t \<and> 0 < Framerate t"
proof
  fix t assume "t \<in> set (getTranscoders src cfg)"
  from getTranscoders_member[OF this] obtain v
    where v: "v \<in> set (Transcoders cfg)" and some: "snd (getTranscoders_iter src v) = Some t"
    by blast
  from getTranscoders_iter_Some[OF some] obtain f
    where r: "resolutionOf (Split v (CHR ''p'')) = Some (Resolution t)"
      and f: "framerateOf (Split v (CHR ''p'')) = Some f"
      and m: "Framerate t = min f (sourceFramerate src)"
    by blast
  from assms(3) v r have "0 < Resolution t" by blast
  moreover from assms(3) v f have "0 < f" by blast
  with m assms(2) have "0 < Framerate t" by simp
  ultimately show "0 < Resolution t \<and> 0 < Framerate t" by simp
qed

text \<open>
  The theorem at the tokens 1080p60 and 720p, for a source of 1920 at 30.
\<close>

theorem positive_segments_give_positive_profiles_witness:
  "0 < sourceResolution \<lparr>sourceResolution = 1920, sourceFramerate = 30\<rparr> \<and>
   0 < sourceFramerate \<lparr>sourceResolution = 1920, sourceFramerate = 30\<rparr> \<and>
   resolutionOf (Split ''1080p60'' (CHR ''p'')) = Some 1080 \<and>
   framerateOf (Split ''1080p60'' (CHR ''p'')) = Some 60 \<and>
   resolutionOf (Split ''720p'' (CHR ''p'')) = Some 720 \<and>
   framerateOf (Split ''720p'' (CHR ''p'')) = Some 30 \<and>
   getTranscoders \<lparr>sourceResolution = 1920, sourceFramerate = 30\<rparr>
     \<lparr>Seed = [], Title = [], Owner = [], Transcoders = [''1080p60'', ''720p'']\<rparr>
     = [\<lparr>Resolution = 1080, Framerate = 30\<rparr>, \<lparr>Resolution = 720, Framerate = 30\<rparr>] \<and>
   0 < Resolution \<lparr>Resolution = 1080, Framerate = 30\<rparr> \<and>
   0 < Framerate \<lparr>Resolution = 1080, Framerate = 30\<rparr>"
proof -
  let ?S = "\<lparr>sourceResolution = 1920, sourceFramerate = 30\<rparr>"
  let ?C = "\<lparr>Seed = [], Title = [], Owner = [], Transcoders = [''1080p60'', ''720p'']\<rparr>"
  have h1: "0 < sourceResolution ?S" and h2: "0 < sourceFramerate ?S"
    by simp_all
  have p: "resolutionOf (Split ''1080p60'' (CHR ''p'')) = Some 1080"
    "framerateOf (Split ''1080p60'' (CHR ''p'')) = Some 60"
    "resolutionOf (Split ''720p'' (CHR ''p'')) = Some 720"
    "framerateOf (Split ''720p'' (CHR ''p'')) = Some 30"
    by (simp_all add: resolutionOf_def framerateOf_def Atoi_def parseSigned_def isDigit_def
        maxInt_def minInt_def)
  have h3: "\<forall>v \<in> set (Transcoders ?C).
           (\<forall>r. resolutionOf (Split v (CHR ''p'')) = Some r \<longrightarrow> 0 < r) \<and>
           (\<forall>f. framerateOf (Split v (CHR ''p'')) = Some f \<longrightarrow> 0 < f)"
    using p by simp
  have out: "getTranscoders ?S ?C
     = [\<lparr>Resolution = 1080, Framerate = 30\<rparr>, \<lparr>Resolution = 720, Framerate = 30\<rparr>]"
    by (simp add: getTranscoders_def getTranscoders_io_def getTranscoders_iter_def
      resolutionOf_def framerateOf_def Atoi_def parseSigned_def isDigit_def
      maxInt_def minInt_def removeDuplicateTranscodes_def transcode_less_def)
  then have "\<lparr>Resolution = 1080, Framerate = 30\<rparr> \<in> set (getTranscoders ?S ?C)"
    by simp
  with positive_segments_give_positive_profiles[OF h1 h2 h3]
  have "0 < Resolution \<lparr>Resolution = 1080, Framerate = 30\<rparr> \<and>
        0 < Framerate \<lparr>Resolution = 1080, Framerate = 30\<rparr>"
    by blast
  with h1 h2 p out show ?thesis by blast
qed

text \<open>
  C4 as stated asks this of every token list. The program never checks the sign of
  what it parsed: for a source of 1920 at 30, the token 0p0 yields 0 at 0 and the
  token -3p-4 yields -3 at -4.
\<close>

theorem zero_and_negative_profiles_are_returned:
  "0 < sourceResolution \<lparr>sourceResolution = 1920, sourceFramerate = 30\<rparr> \<and>
   0 < sourceFramerate \<lparr>sourceResolution = 1920, sourceFramerate = 30\<rparr> \<and>
   getTranscoders \<lparr>sourceResolution = 1920, sourceFramerate = 30\<rparr>
     \<lparr>Seed = [], Title = [], Owner = [], Transcoders = [''0p0'']\<rparr>
     = [\<lparr>Resolution = 0, Framerate = 0\<rparr>] \<and>
   getTranscoders \<lparr>sourceResolution = 1920, sourceFramerate = 30\<rparr>
     \<lparr>Seed = [], Title = [], Owner = [], Transcoders = [''-3p-4'']\<rparr>
     = [\<lparr>Resolution = - 3, Framerate = - 4\<rparr>]"
  by (simp add: getTranscoders_def getTranscoders_io_def
      getTranscoders_iter_def resolutionOf_def framerateOf_def Atoi_def parseSigned_def
      isDigit_def maxInt_def minInt_def removeDuplicateTranscodes_def)

section \<open>Order of the result\<close>

text \<open>
  C5: for every token list and source, the slice \<^verbatim>\<open>getTranscoders\<close> returns is
  sorted by resolution descending, then framerate descending, and no two entries have
  the same resolution: the resolutions are strictly descending. The same holds for
  \<^verbatim>\<open>removeDuplicateTranscodes\<close> on every slice.
\<close>

theorem output_sorted_without_duplicate_resolutions:
  "sorted_wrt (\<lambda>a b. Resolution a > Resolution b \<or>
                      (Resolution a = Resolution b \<and> Framerate a \<ge> Framerate b))
     (getTranscoders src cfg) \<and>
   sorted_wrt (\<lambda>a b. Resolution a > Resolution b) (getTranscoders src cfg) \<and>
   distinct (map Resolution (getTranscoders src cfg)) \<and>
   sorted_wrt (\<lambda>a b. Resolution a > Resolution b) (removeDuplicateTranscodes transcodes) \<and>
   distinct (map Resolution (removeDuplicateTranscodes transcodes))"
proof -
  have strict: "sorted_wrt (\<lambda>a b. Resolution a > Resolution b) (removeDuplicateTranscodes xs)" for xs
    by (rule removeDuplicateTranscodes_facts(1))
  have weak: "sorted_wrt (\<lambda>a b. Resolution a > Resolution b \<or>
                      (Resolution a = Resolution b \<and> Framerate a \<ge> Framerate b))
                (removeDuplicateTranscodes xs)" for xs
    by (rule sorted_wrt_mono_rel[OF _ strict]) simp
  show ?thesis
    unfolding getTranscoders_eq
    using strict weak descending_resolutions_distinct[OF strict] by blast
qed

section \<open>One entry per resolution, with the greatest framerate\<close>

text \<open>
  C6: for every slice, \<^verbatim>\<open>removeDuplicateTranscodes\<close> returns exactly one entry
  for each resolution of the slice, an entry of the slice whose framerate is the
  maximum of the framerates the slice has for that resolution; a reordering of the
  slice gives the same result; and the tokens 1080p60 and 1080p30, in either order,
  for a source of 1920 at 60 give exactly 1080 at 60.
\<close>

theorem dedup_keeps_max_framerate_per_resolution:
  "distinct (map Resolution (removeDuplicateTranscodes transcodes)) \<and>
   Resolution ` set (removeDuplicateTranscodes transcodes) = Resolution ` set transcodes \<and>
   (\<forall>u \<in> set (removeDuplicateTranscodes transcodes).
      u \<in> set transcodes \<and>
      Framerate u = Max (Framerate ` {w \<in> set transcodes. Resolution w = Resolution u})) \<and>
   (\<forall>reordered. mset reordered = mset transcodes \<longrightarrow>
      removeDuplicateTranscodes reordered = removeDuplicateTranscodes transcodes) \<and>
   getTranscoders \<lparr>sourceResolution = 1920, sourceFramerate = 60\<rparr>
     \<lparr>Seed = seed, Title = title, Owner = owner, Transcoders = [''1080p60'', ''1080p30'']\<rparr>
     = [\<lparr>Resolution = 1080, Framerate = 60\<rparr>] \<and>
   getTranscoders \<lparr>sourceResolution = 1920, sourceFramerate = 60\<rparr>
     \<lparr>Seed = seed, Title = title, Owner = owner, Transcoders = [''1080p30'', ''1080p60'']\<rparr>
     = [\<lparr>Resolution = 1080, Framerate = 60\<rparr>]"
proof (intro conjI ballI allI impI)
  show "distinct (map Resolution (removeDuplicateTranscodes transcodes))"
    by (rule descending_resolutions_distinct) (rule removeDuplicateTranscodes_facts(1))
  show "Resolution ` set (removeDuplicateTranscodes transcodes) = Resolution ` set transcodes"
    using removeDuplicateTranscodes_facts(2)[of transcodes]
      removeDuplicateTranscodes_facts(4)[of _ transcodes]
    by (auto simp: image_iff) metis
next
  fix u assume u: "u \<in> set (removeDuplicateTranscodes transcodes)"
  then show "u \<in> set transcodes"
    using removeDuplicateTranscodes_facts(2) by blast
  then have "Framerate u \<in> Framerate ` {w \<in> set transcodes. Resolution w = Resolution u}"
    by simp
  moreover have "\<And>y. y \<in> Framerate ` {w \<in> set transcodes. Resolution w = Resolution u} \<Longrightarrow>
      y \<le> Framerate u"
    using removeDuplicateTranscodes_facts(3)[OF u] by auto
  ultimately show "Framerate u = Max (Framerate ` {w \<in> set transcodes. Resolution w = Resolution u})"
    by (intro Max_eqI[symmetric]) simp_all
next
  fix reordered assume "mset reordered = mset transcodes"
  then have "set reordered = set transcodes" by (rule mset_eq_setD)
  then show "removeDuplicateTranscodes reordered = removeDuplicateTranscodes transcodes"
    by (rule removeDuplicateTranscodes_cong)
next
  show "getTranscoders \<lparr>sourceResolution = 1920, sourceFramerate = 60\<rparr>
     \<lparr>Seed = seed, Title = title, Owner = owner, Transcoders = [''1080p60'', ''1080p30'']\<rparr>
     = [\<lparr>Resolution = 1080, Framerate = 60\<rparr>]"
    by (simp add: getTranscoders_def getTranscoders_io_def getTranscoders_iter_def
      resolutionOf_def framerateOf_def Atoi_def parseSigned_def isDigit_def
      maxInt_def minInt_def removeDuplicateTranscodes_def transcode_less_def)
  show "getTranscoders \<lparr>sourceResolution = 1920, sourceFramerate = 60\<rparr>
     \<lparr>Seed = seed, Title = title, Owner = owner, Transcoders = [''1080p30'', ''1080p60'']\<rparr>
     = [\<lparr>Resolution = 1080, Framerate = 60\<rparr>]"
    by (simp add: getTranscoders_def getTranscoders_io_def getTranscoders_iter_def
      resolutionOf_def framerateOf_def Atoi_def parseSigned_def isDigit_def
      maxInt_def minInt_def removeDuplicateTranscodes_def transcode_less_def)
qed

text \<open>
  The theorem at the slice 1080 at 30, 720 at 30, 1080 at 60 and its reversal.
\<close>

theorem dedup_keeps_max_framerate_per_resolution_witness:
  "mset [\<lparr>Resolution = 1080, Framerate = 60\<rparr>, \<lparr>Resolution = 720, Framerate = 30\<rparr>,
         \<lparr>Resolution = 1080, Framerate = 30\<rparr>]
   = mset [\<lparr>Resolution = 1080, Framerate = 30\<rparr>, \<lparr>Resolution = 720, Framerate = 30\<rparr>,
           \<lparr>Resolution = 1080, Framerate = 60\<rparr>] \<and>
   removeDuplicateTranscodes
     [\<lparr>Resolution = 1080, Framerate = 60\<rparr>, \<lparr>Resolution = 720, Framerate = 30\<rparr>,
      \<lparr>Resolution = 1080, Framerate = 30\<rparr>]
   = removeDuplicateTranscodes
       [\<lparr>Resolution = 1080, Framerate = 30\<rparr>, \<lparr>Resolution = 720, Framerate = 30\<rparr>,
        \<lparr>Resolution = 1080, Framerate = 60\<rparr>] \<and>
   removeDuplicateTranscodes
       [\<lparr>Resolution = 1080, Framerate = 30\<rparr>, \<lparr>Resolution = 720, Framerate = 30\<rparr>,
        \<lparr>Resolution = 1080, Framerate = 60\<rparr>]
   = [\<lparr>Resolution = 1080, Framerate = 60\<rparr>, \<lparr>Resolution = 720, Framerate = 30\<rparr>] \<and>
   Max (Framerate ` {w \<in> set [\<lparr>Resolution = 1080, Framerate = 30\<rparr>,
                               \<lparr>Resolution = 720, Framerate = 30\<rparr>,
                               \<lparr>Resolution = 1080, Framerate = 60\<rparr>].
                     Resolution w = Resolution \<lparr>Resolution = 1080, Framerate = 60\<rparr>}) = 60"
proof -
  let ?xs = "[\<lparr>Resolution = 1080, Framerate = 30\<rparr>, \<lparr>Resolution = 720, Framerate = 30\<rparr>,
              \<lparr>Resolution = 1080, Framerate = 60\<rparr>]"
  let ?ys = "[\<lparr>Resolution = 1080, Framerate = 60\<rparr>, \<lparr>Resolution = 720, Framerate = 30\<rparr>,
              \<lparr>Resolution = 1080, Framerate = 30\<rparr>]"
  note inst = dedup_keeps_max_framerate_per_resolution[of ?xs]
  have perm: "mset ?ys = mset ?xs" by simp
  have out: "removeDuplicateTranscodes ?xs
      = [\<lparr>Resolution = 1080, Framerate = 60\<rparr>, \<lparr>Resolution = 720, Framerate = 30\<rparr>]"
    by (simp add: removeDuplicateTranscodes_def transcode_less_def)
  from inst perm have same: "removeDuplicateTranscodes ?ys = removeDuplicateTranscodes ?xs"
    by blast
  have "\<lparr>Resolution = 1080, Framerate = 60\<rparr> \<in> set (removeDuplicateTranscodes ?xs)"
    by (simp add: out)
  with inst have
    "Framerate \<lparr>Resolution = 1080, Framerate = 60\<rparr> =
       Max (Framerate ` {w \<in> set ?xs. Resolution w = Resolution \<lparr>Resolution = 1080, Framerate = 60\<rparr>})"
    by blast
  then have mx: "Max (Framerate ` {w \<in> set ?xs. Resolution w = Resolution \<lparr>Resolution = 1080, Framerate = 60\<rparr>}) = 60"
    by simp
  from perm same out mx show ?thesis by blast
qed

section \<open>Parsing a token\<close>

text \<open>
  C7, as the code has it: for numbers \<open>r\<close> and \<open>f\<close> that are positive and fit
  a 64-bit \<^verbatim>\<open>int\<close>, the token made of the decimal rendering of \<open>r\<close>, the
  letter p and the decimal rendering of \<open>f\<close> parses to the resolution \<open>r\<close> and
  the framerate \<open>f\<close>; the token without the framerate, with or without the
  letter p, parses to the resolution \<open>r\<close> and the framerate 30; and where the source
  admits these values unchanged, the iteration appends exactly them.
\<close>

theorem parser_reads_decimal_token:
  assumes "0 < r" and "int r \<le> maxInt" and "0 < f" and "int f \<le> maxInt"
  shows "resolutionOf (Split (decimal r @ ''p'' @ decimal f) (CHR ''p'')) = Some (int r) \<and>
         framerateOf (Split (decimal r @ ''p'' @ decimal f) (CHR ''p'')) = Some (int f) \<and>
         resolutionOf (Split (decimal r @ ''p'') (CHR ''p'')) = Some (int r) \<and>
         framerateOf (Split (decimal r @ ''p'') (CHR ''p'')) = Some 30 \<and>
         resolutionOf (Split (decimal r) (CHR ''p'')) = Some (int r) \<and>
         framerateOf (Split (decimal r) (CHR ''p'')) = Some 30 \<and>
         (int r < sourceResolution src \<and> int f \<le> sourceFramerate src \<longrightarrow>
            snd (getTranscoders_iter src (decimal r @ ''p'' @ decimal f))
              = Some \<lparr>Resolution = int r, Framerate = int f\<rparr>) \<and>
         (int r < sourceResolution src \<and> 30 \<le> sourceFramerate src \<longrightarrow>
            snd (getTranscoders_iter src (decimal r @ ''p''))
              = Some \<lparr>Resolution = int r, Framerate = 30\<rparr>)"
proof -
  have s2: "Split (decimal r @ ''p'' @ decimal f) (CHR ''p'') = [decimal r, decimal f]"
    using Split_at_sep[OF decimal_no_p, of r "decimal f"] Split_no_sep[OF decimal_no_p, of f]
    by simp
  have s1: "Split (decimal r @ ''p'') (CHR ''p'') = [decimal r, []]"
    using Split_at_sep[OF decimal_no_p, of r "[]"] by simp
  have s0: "Split (decimal r) (CHR ''p'') = [decimal r]"
    by (rule Split_no_sep[OF decimal_no_p])
  have ar: "Atoi (decimal r) = Some (int r)" and af: "Atoi (decimal f) = Some (int f)"
    using assms by (simp_all add: Atoi_decimal)
  have p2: "resolutionOf (Split (decimal r @ ''p'' @ decimal f) (CHR ''p'')) = Some (int r)"
    "framerateOf (Split (decimal r @ ''p'' @ decimal f) (CHR ''p'')) = Some (int f)"
    unfolding s2 by (simp_all add: resolutionOf_def framerateOf_def ar af decimal_nonempty)
  have p1: "resolutionOf (Split (decimal r @ ''p'') (CHR ''p'')) = Some (int r)"
    "framerateOf (Split (decimal r @ ''p'') (CHR ''p'')) = Some 30"
    unfolding s1 by (simp_all add: resolutionOf_def framerateOf_def ar)
  have p0: "resolutionOf (Split (decimal r) (CHR ''p'')) = Some (int r)"
    "framerateOf (Split (decimal r) (CHR ''p'')) = Some 30"
    unfolding s0 by (simp_all add: resolutionOf_def framerateOf_def ar)
  have i2: "snd (getTranscoders_iter src (decimal r @ ''p'' @ decimal f))
              = Some \<lparr>Resolution = int r, Framerate = int f\<rparr>"
    if "int r < sourceResolution src \<and> int f \<le> sourceFramerate src"
    using that p2 by (intro getTranscoders_iter_accepts) simp_all
  have i1: "snd (getTranscoders_iter src (decimal r @ ''p''))
              = Some \<lparr>Resolution = int r, Framerate = 30\<rparr>"
    if "int r < sourceResolution src \<and> 30 \<le> sourceFramerate src"
    using that p1 by (intro getTranscoders_iter_accepts) simp_all
  from p2 p1 p0 i2 i1 show ?thesis by blast
qed

text \<open>
  The theorem at the token 720p60.
\<close>

theorem parser_reads_decimal_token_witness:
  "(0::nat) < 720 \<and> int 720 \<le> maxInt \<and> (0::nat) < 60 \<and> int 60 \<le> maxInt \<and>
   resolutionOf (Split (decimal 720 @ ''p'' @ decimal 60) (CHR ''p'')) = Some 720 \<and>
   framerateOf (Split (decimal 720 @ ''p'' @ decimal 60) (CHR ''p'')) = Some 60 \<and>
   framerateOf (Split (decimal 720 @ ''p'') (CHR ''p'')) = Some 30 \<and>
   decimal 720 @ ''p'' @ decimal 60 = ''720p60''"
proof -
  have h: "(0::nat) < 720" "int 720 \<le> maxInt" "(0::nat) < 60" "int 60 \<le> maxInt"
    by (simp_all add: maxInt_def)
  have d: "decimal 720 @ ''p'' @ decimal 60 = ''720p60''"
    by (simp add: decimal.simps digitChar_def)
  from parser_reads_decimal_token[OF h] h d show ?thesis by simp
qed

text \<open>
  C7 as stated asks this of every positive integer. A number beyond the range of
  \<^verbatim>\<open>int\<close> is a range error of \<^verbatim>\<open>strconv.Atoi\<close>: the token
  720p9223372036854775808 yields no framerate, and nothing is returned for it.
\<close>

theorem framerate_beyond_int_range_is_rejected:
  "decimal 720 @ ''p'' @ decimal 9223372036854775808 = ''720p9223372036854775808'' \<and>
   resolutionOf (Split ''720p9223372036854775808'' (CHR ''p'')) = Some 720 \<and>
   framerateOf (Split ''720p9223372036854775808'' (CHR ''p'')) = None \<and>
   getTranscoders \<lparr>sourceResolution = 1920, sourceFramerate = 30\<rparr>
     \<lparr>Seed = [], Title = [], Owner = [], Transcoders = [''720p9223372036854775808'']\<rparr> = []"
  by (simp add: decimal.simps digitChar_def getTranscoders_def getTranscoders_io_def
      getTranscoders_iter_def resolutionOf_def framerateOf_def Atoi_def parseSigned_def
      isDigit_def maxInt_def minInt_def removeDuplicateTranscodes_def)

section \<open>Lowering the framerate\<close>

text \<open>
  C8: every entry \<^verbatim>\<open>getTranscoders\<close> returns has a framerate of at most the
  source framerate; an iteration whose resolution is admitted and whose framerate
  exceeds the source framerate prints the lowering line and appends the entry with
  exactly the source framerate; and the token 720p120 for a source of 1920 at 60 gives
  720 at 60.
\<close>

theorem framerate_clamped_to_source:
  "(\<forall>t \<in> set (getTranscoders src cfg). Framerate t \<le> sourceFramerate src) \<and>
   (\<forall>v r f. resolutionOf (Split v (CHR ''p'')) = Some r \<and> r < sourceResolution src \<and>
            framerateOf (Split v (CHR ''p'')) = Some f \<and> sourceFramerate src < f \<longrightarrow>
      getTranscoders_iter src v =
        ([LoweringFramerate v (sourceFramerate src)],
         Some \<lparr>Resolution = r, Framerate = sourceFramerate src\<rparr>)) \<and>
   getTranscoders \<lparr>sourceResolution = 1920, sourceFramerate = 60\<rparr>
     \<lparr>Seed = seed, Title = title, Owner = owner, Transcoders = [''720p120'']\<rparr>
     = [\<lparr>Resolution = 720, Framerate = 60\<rparr>]"
proof (intro conjI ballI allI impI)
  fix t assume "t \<in> set (getTranscoders src cfg)"
  from getTranscoders_member[OF this] obtain v where "snd (getTranscoders_iter src v) = Some t"
    by blast
  from getTranscoders_iter_Some[OF this] show "Framerate t \<le> sourceFramerate src"
    by auto
next
  fix v r f
  assume "resolutionOf (Split v (CHR ''p'')) = Some r \<and> r < sourceResolution src \<and>
            framerateOf (Split v (CHR ''p'')) = Some f \<and> sourceFramerate src < f"
  then show "getTranscoders_iter src v =
        ([LoweringFramerate v (sourceFramerate src)],
         Some \<lparr>Resolution = r, Framerate = sourceFramerate src\<rparr>)"
    by (simp add: getTranscoders_iter_def)
next
  show "getTranscoders \<lparr>sourceResolution = 1920, sourceFramerate = 60\<rparr>
     \<lparr>Seed = seed, Title = title, Owner = owner, Transcoders = [''720p120'']\<rparr>
     = [\<lparr>Resolution = 720, Framerate = 60\<rparr>]"
    by (simp add: getTranscoders_def getTranscoders_io_def getTranscoders_iter_def
      resolutionOf_def framerateOf_def Atoi_def parseSigned_def isDigit_def
      maxInt_def minInt_def removeDuplicateTranscodes_def transcode_less_def)
qed

text \<open>
  The theorem at the tokens 720p120 and 480p, for a source of 1920 at 60.
\<close>

theorem framerate_clamped_to_source_witness:
  "getTranscoders \<lparr>sourceResolution = 1920, sourceFramerate = 60\<rparr>
     \<lparr>Seed = [], Title = [], Owner = [], Transcoders = [''720p120'', ''480p'']\<rparr>
     = [\<lparr>Resolution = 720, Framerate = 60\<rparr>, \<lparr>Resolution = 480, Framerate = 30\<rparr>] \<and>
   Framerate \<lparr>Resolution = 720, Framerate = 60\<rparr>
     \<le> sourceFramerate \<lparr>sourceResolution = 1920, sourceFramerate = 60\<rparr> \<and>
   resolutionOf (Split ''720p120'' (CHR ''p'')) = Some 720 \<and>
   720 < sourceResolution \<lparr>sourceResolution = 1920, sourceFramerate = 60\<rparr> \<and>
   framerateOf (Split ''720p120'' (CHR ''p'')) = Some 120 \<and>
   sourceFramerate \<lparr>sourceResolution = 1920, sourceFramerate = 60\<rparr> < 120 \<and>
   getTranscoders_iter \<lparr>sourceResolution = 1920, sourceFramerate = 60\<rparr> ''720p120''
     = ([LoweringFramerate ''720p120'' 60], Some \<lparr>Resolution = 720, Framerate = 60\<rparr>)"
proof -
  let ?S = "\<lparr>sourceResolution = 1920, sourceFramerate = 60\<rparr>"
  let ?C = "\<lparr>Seed = [], Title = [], Owner = [], Transcoders = [''720p120'', ''480p'']\<rparr>"
  note inst = framerate_clamped_to_source[of ?S ?C]
  have out: "getTranscoders ?S ?C
     = [\<lparr>Resolution = 720, Framerate = 60\<rparr>, \<lparr>Resolution = 480, Framerate = 30\<rparr>]"
    by (simp add: getTranscoders_def getTranscoders_io_def getTranscoders_iter_def
      resolutionOf_def framerateOf_def Atoi_def parseSigned_def isDigit_def
      maxInt_def minInt_def removeDuplicateTranscodes_def transcode_less_def)
  then have "\<lparr>Resolution = 720, Framerate = 60\<rparr> \<in> set (getTranscoders ?S ?C)"
    by simp
  with inst have le: "Framerate \<lparr>Resolution = 720, Framerate = 60\<rparr> \<le> sourceFramerate ?S"
    by blast
  have p: "resolutionOf (Split ''720p120'' (CHR ''p'')) = Some 720 \<and>
      720 < sourceResolution ?S \<and>
      framerateOf (Split ''720p120'' (CHR ''p'')) = Some 120 \<and>
      sourceFramerate ?S < 120"
    by (simp add: resolutionOf_def framerateOf_def Atoi_def parseSigned_def isDigit_def
        maxInt_def minInt_def)
  with inst have "getTranscoders_iter ?S ''720p120''
     = ([LoweringFramerate ''720p120'' (sourceFramerate ?S)],
        Some \<lparr>Resolution = 720, Framerate = sourceFramerate ?S\<rparr>)"
    by blast
  then have it: "getTranscoders_iter ?S ''720p120''
     = ([LoweringFramerate ''720p120'' 60], Some \<lparr>Resolution = 720, Framerate = 60\<rparr>)"
    by simp
  from out le p it show ?thesis by blast
qed

section \<open>An existing configuration file\<close>

text \<open>
  C9: when the configuration file exists, \<^verbatim>\<open>NewConfig\<close> leaves its contents as
  they were, whatever the file holds; and when it can be read, the result is the
  decoded configuration with only an empty title replaced, or the decoding error.
\<close>

theorem NewConfig_keeps_existing_file:
  assumes "files fs configFile = Some data"
  shows "files (snd (NewConfig ext configFile fs)) configFile = Some data \<and>
         (\<not> denied fs configFile \<longrightarrow>
            fst (NewConfig ext configFile fs) =
              (case Decode ext data of
                 None \<Rightarrow> Inl DecodeError
               | Some cfg \<Rightarrow>
                   Inr (if Title cfg = [] then cfg\<lparr>Title := ''Unnamed Stream''\<rparr> else cfg)))"
proof -
  let ?fs = "generateMediaMTXConfig ext fs"
  have f: "files ?fs configFile = Some data" and d: "denied ?fs = denied fs"
    using generateMediaMTXConfig_keeps[OF assms] by simp_all
  show ?thesis
  proof (cases "denied fs configFile")
    case True
    then have "NewConfig ext configFile fs = (Inl (StatError ErrPermission), ?fs)"
      by (simp add: NewConfig_def Let_def Stat_def d)
    with f True show ?thesis by simp
  next
    case False
    then have "NewConfig ext configFile fs =
        (case Decode ext data of
           None \<Rightarrow> (Inl DecodeError, ?fs)
         | Some cfg \<Rightarrow>
             (Inr (if Title cfg = [] then cfg\<lparr>Title := ''Unnamed Stream''\<rparr> else cfg), ?fs))"
      by (simp add: NewConfig_def Let_def Stat_def Open_def d f)
    with f False show ?thesis by (simp split: option.splits)
  qed
qed

text \<open>
  The theorem at a file system that holds only the configuration file, whose
  decoded title is empty.
\<close>

theorem NewConfig_keeps_existing_file_witness:
  "files \<lparr>files = [''config.json'' \<mapsto> ''{}''], denied = (\<lambda>p. False)\<rparr> ''config.json''
     = Some ''{}'' \<and>
   files (snd (NewConfig
      \<lparr>newSeed = ''00'', MarshalIndent = (\<lambda>c. Some (Seed c)),
        Decode = (\<lambda>s. Some \<lparr>Seed = s, Title = [], Owner = [], Transcoders = []\<rparr>),
        mediaMTXDefaults = ''paths:''\<rparr>
      ''config.json''
      \<lparr>files = [''config.json'' \<mapsto> ''{}''], denied = (\<lambda>p. False)\<rparr>)) ''config.json''
     = Some ''{}'' \<and>
   fst (NewConfig
      \<lparr>newSeed = ''00'', MarshalIndent = (\<lambda>c. Some (Seed c)),
        Decode = (\<lambda>s. Some \<lparr>Seed = s, Title = [], Owner = [], Transcoders = []\<rparr>),
        mediaMTXDefaults = ''paths:''\<rparr>
      ''config.json''
      \<lparr>files = [''config.json'' \<mapsto> ''{}''], denied = (\<lambda>p. False)\<rparr>)
     = Inr \<lparr>Seed = ''{}'', Title = ''Unnamed Stream'', Owner = [], Transcoders = []\<rparr>"
proof -
  let ?fs = "\<lparr>files = [''config.json'' \<mapsto> ''{}''], denied = (\<lambda>p. False)\<rparr>"
  let ?ext = "\<lparr>newSeed = ''00'', MarshalIndent = (\<lambda>c. Some (Seed c)),
        Decode = (\<lambda>s. Some \<lparr>Seed = s, Title = [], Owner = [], Transcoders = []\<rparr>),
        mediaMTXDefaults = ''paths:''\<rparr>"
  have h: "files ?fs ''config.json'' = Some ''{}''" by simp
  have nd: "\<not> denied ?fs ''config.json''" by simp
  from NewConfig_keeps_existing_file[OF h, of ?ext] h nd show ?thesis by simp
qed

section \<open>Resolutions strictly below the source\<close>

text \<open>
  C10: every entry \<^verbatim>\<open>getTranscoders\<close> returns has a resolution strictly below
  the source resolution, because an iteration whose resolution is greater than or equal
  to the source resolution prints the line for a smaller source and appends nothing,
  before the framerate is looked at.
\<close>

theorem output_resolution_below_source:
  "(\<forall>t \<in> set (getTranscoders src cfg). Resolution t < sourceResolution src) \<and>
   (\<forall>v r. resolutionOf (Split v (CHR ''p'')) = Some r \<and> sourceResolution src \<le> r \<longrightarrow>
      getTranscoders_iter src v = ([SkippingSourceSmaller v (sourceResolution src)], None))"
proof (intro conjI ballI allI impI)
  fix t assume "t \<in> set (getTranscoders src cfg)"
  from getTranscoders_member[OF this] obtain v where "snd (getTranscoders_iter src v) = Some t"
    by blast
  from getTranscoders_iter_Some[OF this] show "Resolution t < sourceResolution src"
    by auto
next
  fix v r
  assume "resolutionOf (Split v (CHR ''p'')) = Some r \<and> sourceResolution src \<le> r"
  then show "getTranscoders_iter src v = ([SkippingSourceSmaller v (sourceResolution src)], None)"
    by (simp add: getTranscoders_iter_def)
qed

text \<open>
  The theorem at the tokens 1080p15, 720p and 1440p, for a source of 1080 at 30.
\<close>

theorem output_resolution_below_source_witness:
  "getTranscoders \<lparr>sourceResolution = 1080, sourceFramerate = 30\<rparr>
     \<lparr>Seed = [], Title = [], Owner = [], Transcoders = [''1080p15'', ''720p'', ''1440p'']\<rparr>
     = [\<lparr>Resolution = 720, Framerate = 30\<rparr>] \<and>
   Resolution \<lparr>Resolution = 720, Framerate = 30\<rparr>
     < sourceResolution \<lparr>sourceResolution = 1080, sourceFramerate = 30\<rparr> \<and>
   resolutionOf (Split ''1080p15'' (CHR ''p'')) = Some 1080 \<and>
   sourceResolution \<lparr>sourceResolution = 1080, sourceFramerate = 30\<rparr> \<le> 1080 \<and>
   getTranscoders_iter \<lparr>sourceResolution = 1080, sourceFramerate = 30\<rparr> ''1080p15''
     = ([SkippingSourceSmaller ''1080p15'' 1080], None)"
proof -
  let ?S = "\<lparr>sourceResolution = 1080, sourceFramerate = 30\<rparr>"
  let ?C = "\<lparr>Seed = [], Title = [], Owner = [], Transcoders = [''1080p15'', ''720p'', ''1440p'']\<rparr>"
  note inst = output_resolution_below_source[of ?S ?C]
  have out: "getTranscoders ?S ?C = [\<lparr>Resolution = 720, Framerate = 30\<rparr>]"
    by (simp add: getTranscoders_def getTranscoders_io_def getTranscoders_iter_def
      resolutionOf_def framerateOf_def Atoi_def parseSigned_def isDigit_def
      maxInt_def minInt_def removeDuplicateTranscodes_def transcode_less_def)
  then have "\<lparr>Resolution = 720, Framerate = 30\<rparr> \<in> set (getTranscoders ?S ?C)"
    by simp
  with inst have lt: "Resolution \<lparr>Resolution = 720, Framerate = 30\<rparr> < sourceResolution ?S"
    by blast
  have p: "resolutionOf (Split ''1080p15'' (CHR ''p'')) = Some 1080 \<and>
      sourceResolution ?S \<le> 1080"
    by (simp add: resolutionOf_def Atoi_def parseSigned_def isDigit_def maxInt_def minInt_def)
  with inst have "getTranscoders_iter ?S ''1080p15''
     = ([SkippingSourceSmaller ''1080p15'' (sourceResolution ?S)], None)"
    by blast
  then have it: "getTranscoders_iter ?S ''1080p15''
     = ([SkippingSourceSmaller ''1080p15'' 1080], None)"
    by simp
  from out lt p it show ?thesis by blast
qed

end
